theory Spec2Isabelle
  imports Main "HOL-Library.AList"
begin

section \<open>JavaScript values\<close>

text \<open>
  The values that flow through the SDK are JSON-shaped: payloads, parsed response bodies,
  header values. An object is an association list in property order with distinct keys.
  Numbers are restricted to the integers (the only numbers the code itself creates are
  byte counts, and the only thing it asks of a number it receives is whether it is zero).
  Strings are lists of 8-bit characters: a response header value is the Latin-1 decoding
  Node gives it, a body is its UTF-8 bytes.
\<close>

datatype json =
    JNull
  | JBool bool
  | JNum int
  | JStr string
  | JArr "json list"
  | JObj "(string \<times> json) list"

type_synonym obj = "(string \<times> json) list"

text \<open>ToBoolean on these values.\<close>

fun truthy :: "json \<Rightarrow> bool" where
  "truthy JNull = False"
| "truthy (JBool b) = b"
| "truthy (JNum n) = (n \<noteq> 0)"
| "truthy (JStr s) = (s \<noteq> [])"
| "truthy (JArr xs) = True"
| "truthy (JObj kvs) = True"

text \<open>A value that may be \<^verbatim>\<open>undefined\<close> (\<open>None\<close>), which is falsy.\<close>

fun truthy_opt :: "json option \<Rightarrow> bool" where
  "truthy_opt None = False"
| "truthy_opt (Some v) = truthy v"

text \<open>
  \<^verbatim>\<open>o.k\<close> for a property name that no prototype defines (\<^verbatim>\<open>message\<close>,
  \<^verbatim>\<open>occurred_at\<close>): the own property of an object, \<^verbatim>\<open>undefined\<close> on an
  array, string, number or boolean.
\<close>

definition obj_get :: "obj \<Rightarrow> string \<Rightarrow> json option" where
  "obj_get kvs k = map_of kvs k"

text \<open>\<^verbatim>\<open>o[k] = v\<close>: an existing property keeps its place, a new one is appended.\<close>

definition obj_set :: "string \<Rightarrow> json \<Rightarrow> obj \<Rightarrow> obj" where
  "obj_set k v kvs = AList.update k v kvs"

text \<open>\<^verbatim>\<open>{ ...target, ...src }\<close>: the properties of \<open>src\<close> are assigned in order.\<close>

definition obj_spread :: "obj \<Rightarrow> obj \<Rightarrow> obj" where
  "obj_spread target src = foldl (\<lambda>t (k, v). obj_set k v t) target src"

text \<open>\<^verbatim>\<open>v?.k\<close> on a value that is not \<^verbatim>\<open>undefined\<close>.\<close>

fun opt_chain :: "json \<Rightarrow> string \<Rightarrow> json option" where
  "opt_chain (JObj kvs) k = obj_get kvs k"
| "opt_chain v k = None"

text \<open>\<^verbatim>\<open>x || d\<close> on a value that may be \<^verbatim>\<open>undefined\<close>.\<close>

fun js_or :: "json option \<Rightarrow> json \<Rightarrow> json" where
  "js_or None d = d"
| "js_or (Some v) d = (if truthy v then v else d)"

section \<open>Number and string helpers of the runtime\<close>

text \<open>
  \<^verbatim>\<open>parseInt(s, 10)\<close>: leading white space is skipped, one sign is read, then the
  longest run of decimal digits; no digit gives \<^verbatim>\<open>NaN\<close> (\<open>None\<close>). The white space
  of ECMAScript among the code units below 256 is TAB, LF, VT, FF, CR, SP and NBSP.
  The result is the exact integer (a double carries it exactly up to \<open>2 ^ 53\<close>).
\<close>

definition isWhiteSpace :: "char \<Rightarrow> bool" where
  "isWhiteSpace c \<longleftrightarrow> c \<in> set [CHR 0x09, CHR 0x0A, CHR 0x0B, CHR 0x0C, CHR 0x0D, CHR 0x20, CHR 0xA0]"

definition isDigit :: "char \<Rightarrow> bool" where
  "isDigit c \<longleftrightarrow> c \<in> set ''0123456789''"

definition digit_val :: "char \<Rightarrow> nat" where
  "digit_val c = of_char c - 48"

definition digits_val :: "string \<Rightarrow> nat" where
  "digits_val ds = foldl (\<lambda>acc c. acc * 10 + digit_val c) 0 ds"

definition parseInt :: "string \<Rightarrow> int option" where
  "parseInt s =
     (let t = dropWhile isWhiteSpace s;
          neg = (case t of [] \<Rightarrow> False | c # r \<Rightarrow> c = CHR ''-'');
          u = (case t of [] \<Rightarrow> [] | c # r \<Rightarrow> if c = CHR ''-'' \<or> c = CHR ''+'' then r else t);
          ds = takeWhile isDigit u
      in if ds = [] then None
         else Some (if neg then - int (digits_val ds) else int (digits_val ds)))"

text \<open>Template-literal conversion of a non-negative integer to its decimal digits.\<close>

definition digit_char :: "nat \<Rightarrow> char" where
  "digit_char d = ''0123456789'' ! d"

function string_of_nat :: "nat \<Rightarrow> string" where
  "string_of_nat n = (if n < 10 then [digit_char n] else string_of_nat (n div 10) @ [digit_char (n mod 10)])"
  by pat_completeness auto
termination
  by (relation "measure id") auto

section \<open>Errors\<close>

text \<open>
  What a call can throw: a plain \<^verbatim>\<open>Error\<close> (from the constructor or the transport),
  the \<^verbatim>\<open>TypeError\<close> of \<^verbatim>\<open>new URL\<close>, the SDK's \<^verbatim>\<open>NotiBoostError\<close> with the
  three constructor arguments (message, statusCode, response), and the value
  \<^verbatim>\<open>undefined\<close> that \<^verbatim>\<open>throw lastError\<close> throws when nothing was caught.
  The message of a \<^verbatim>\<open>NotiBoostError\<close> is the argument handed to \<^verbatim>\<open>super\<close>,
  which \<^verbatim>\<open>Error\<close> converts to a string.
\<close>

datatype js_error =
    Error string
  | TypeError string
  | NotiBoostError json nat json
  | ThrownUndefined

fun is_NotiBoostError :: "js_error \<Rightarrow> bool" where
  "is_NotiBoostError (NotiBoostError m s r) = True"
| "is_NotiBoostError e = False"

section \<open>Client configuration\<close>

record client_options =
  opt_apiKey :: "string option"
  opt_baseURL :: "string option"
  opt_timeout :: "int option"
  opt_retries :: "int option"

record client =
  apiKey :: string
  baseURL :: string
  timeout :: int
  retries :: int

text \<open>\<^verbatim>\<open>x || d\<close> on an optional string and on an optional number.\<close>

fun or_string :: "string option \<Rightarrow> string \<Rightarrow> string" where
  "or_string None d = d"
| "or_string (Some s) d = (if s \<noteq> [] then s else d)"

fun or_number :: "int option \<Rightarrow> int \<Rightarrow> int" where
  "or_number None d = d"
| "or_number (Some n) d = (if n \<noteq> 0 then n else d)"

definition new_NotiBoostClient :: "client_options \<Rightarrow> js_error + client" where
  "new_NotiBoostClient options =
     (if or_string (opt_apiKey options) [] = [] then Inl (Error ''API key is required'')
      else Inr \<lparr> apiKey = or_string (opt_apiKey options) [],
                 baseURL = or_string (opt_baseURL options) ''https://api.notiboost.com'',
                 timeout = or_number (opt_timeout options) 30000,
                 retries = or_number (opt_retries options) 3 \<rparr>)"


section \<open>The platform\<close>

text \<open>
  The parts of Node the dispatcher calls and the repository does not contain are
  parameters: \<^verbatim>\<open>JSON.parse\<close> (\<open>None\<close> when it throws), \<^verbatim>\<open>JSON.stringify\<close>,
  \<^verbatim>\<open>new URL\<close> (\<open>None\<close> when it throws), the clock behind
  \<^verbatim>\<open>new Date().toISOString()\<close>, and the network. The network answers the
  \<open>n\<close>-th \<^verbatim>\<open>protocol.request\<close> of a call either with a complete response (status
  code, headers, body text) or with a failure (the \<^verbatim>\<open>error\<close> event's message, or
  \<^verbatim>\<open>Request timeout\<close>).
\<close>

record url =
  url_protocol :: string
  url_hostname :: string
  url_port :: string
  url_pathname :: string
  url_search :: string

datatype port = PortStr string | PortNum nat

record request_options =
  ro_hostname :: string
  ro_port :: port
  ro_path :: string
  ro_method :: string
  ro_headers :: obj
  ro_timeout :: int

datatype protocol = HTTPS | HTTP

datatype net_result =
    Responded nat "(string \<times> string) list" string
  | Failed string

record platform =
  JSON_parse :: "string \<Rightarrow> json option"
  JSON_stringify :: "json \<Rightarrow> string"
  URL_parse :: "string \<Rightarrow> url option"
  Date_toISOString :: string
  net :: "nat \<Rightarrow> protocol \<Rightarrow> request_options \<Rightarrow> string option \<Rightarrow> net_result"

section \<open>The dispatcher\<close>

text \<open>
  A call runs in a world made of the client object (\<^verbatim>\<open>this\<close>), the caller's
  objects (a store from references to objects, since \<^verbatim>\<open>events.ingest\<close> writes into
  the object it is given), and the trace of what has been done so far: the HTTP requests
  issued and the timers waited for, the timer argument in milliseconds (\<open>None\<close> is
  \<^verbatim>\<open>NaN\<close>).
\<close>

type_synonym ref = nat

datatype io =
    HttpRequest protocol request_options "string option"
  | Timer "int option"

record world =
  self :: client
  heap :: "ref \<Rightarrow> obj"
  trace :: "io list"

record response =
  statusCode :: nat
  headers :: "(string \<times> string) list"
  data :: json

definition emit :: "io \<Rightarrow> world \<Rightarrow> world" where
  "emit e w = w\<lparr> trace := trace w @ [e] \<rparr>"

text \<open>The choice between the \<^verbatim>\<open>https\<close> and \<^verbatim>\<open>http\<close> modules, line 90.\<close>

definition protocol_of :: "request_options \<Rightarrow> protocol" where
  "protocol_of options = (if ro_port options = PortNum 443 then HTTPS else HTTP)"

text \<open>The \<^verbatim>\<open>end\<close> listener's parse of the collected body text, lines 99 to 104.\<close>

definition parse_body :: "platform \<Rightarrow> string \<Rightarrow> json" where
  "parse_body pf text =
     (if text \<noteq> [] then
        (case JSON_parse pf text of
           Some v \<Rightarrow> v
         | None \<Rightarrow> JObj [(''message'', JStr text)])
      else JObj [])"

text \<open>\<^verbatim>\<open>_makeRequest\<close>: the promise resolves (\<open>Inr\<close>) or rejects (\<open>Inl\<close>).\<close>

definition makeRequest ::
  "platform \<Rightarrow> nat \<Rightarrow> request_options \<Rightarrow> string option \<Rightarrow> world \<Rightarrow> world \<times> (js_error + response)" where
  "makeRequest pf n options body w =
     (let w1 = emit (HttpRequest (protocol_of options) options body) w
      in case net pf n (protocol_of options) options body of
           Responded code hs text \<Rightarrow>
             (w1, Inr \<lparr> statusCode = code, headers = hs, data = parse_body pf text \<rparr>)
         | Failed msg \<Rightarrow> (w1, Inl (Error msg)))"

text \<open>\<^verbatim>\<open>_sleep(ms)\<close>.\<close>

definition sleep :: "int option \<Rightarrow> world \<Rightarrow> world" where
  "sleep ms w = emit (Timer ms) w"

text \<open>\<^verbatim>\<open>x * 1000\<close> on a number that may be \<^verbatim>\<open>NaN\<close>.\<close>

fun times_1000 :: "int option \<Rightarrow> int option" where
  "times_1000 None = None"
| "times_1000 (Some n) = Some (n * 1000)"

text \<open>How one pass through the body of the \<^verbatim>\<open>for\<close> loop leaves a block.\<close>

datatype completion = Return json | Continue | Throw js_error

text \<open>The \<^verbatim>\<open>try\<close> block of the loop, lines 59 to 74.\<close>

definition try_block ::
  "platform \<Rightarrow> request_options \<Rightarrow> string option \<Rightarrow> nat \<Rightarrow> world \<Rightarrow> world \<times> completion" where
  "try_block pf requestOptions body attempt w =
     (case makeRequest pf attempt requestOptions body w of
        (w1, Inl err) \<Rightarrow> (w1, Throw err)
      | (w1, Inr response) \<Rightarrow>
          if 200 \<le> statusCode response \<and> statusCode response < 300 then
            (w1, Return (data response))
          else if statusCode response = 429 \<and> int attempt < retries (self w1) then
            (let retryAfter = parseInt (or_string (map_of (headers response) ''retry-after'') ''1'')
             in (sleep (times_1000 retryAfter) w1, Continue))
          else
              (w1, Throw (NotiBoostError
                          (js_or (opt_chain (data response) ''message'')
                                 (JStr (''HTTP '' @ string_of_nat (statusCode response))))
                          (statusCode response)
                          (data response))))"

text \<open>The \<^verbatim>\<open>catch\<close> block, lines 76 to 81, after \<^verbatim>\<open>lastError = error\<close>.\<close>

definition catch_block :: "nat \<Rightarrow> js_error \<Rightarrow> world \<Rightarrow> world \<times> completion" where
  "catch_block attempt err w =
     (if int attempt < retries (self w) \<and> \<not> is_NotiBoostError err then
        (sleep (Some (2 ^ attempt * 1000)) w, Continue)
      else (w, Throw err))"

lemma self_emit [simp]: "self (emit e w) = self w"
  by (simp add: emit_def)

lemma self_sleep [simp]: "self (sleep ms w) = self w"
  by (simp add: sleep_def)

lemma self_makeRequest: "makeRequest pf n ro body w = (w1, r) \<Longrightarrow> self w1 = self w"
  by (auto simp: makeRequest_def Let_def split: net_result.splits)

lemma self_try_block: "try_block pf ro body attempt w = (w1, c) \<Longrightarrow> self w1 = self w"
proof -
  assume a: "try_block pf ro body attempt w = (w1, c)"
  obtain w' r where m: "makeRequest pf attempt ro body w = (w', r)"
    by (cases "makeRequest pf attempt ro body w")
  have s: "self w' = self w" using self_makeRequest [OF m] .
  from a m s show ?thesis
    by (cases r) (simp_all add: try_block_def Let_def split: if_splits, auto)
qed

lemma self_catch_block: "catch_block attempt err w = (w1, c) \<Longrightarrow> self w1 = self w"
  by (auto simp: catch_block_def split: if_splits)

text \<open>
  The \<^verbatim>\<open>for\<close> loop, lines 57 to 85, with the loop variables \<^verbatim>\<open>attempt\<close> and
  \<^verbatim>\<open>lastError\<close> as arguments.
\<close>

function request_loop ::
  "platform \<Rightarrow> request_options \<Rightarrow> string option \<Rightarrow> nat \<Rightarrow> js_error option \<Rightarrow> world
     \<Rightarrow> world \<times> (js_error + json)" where
  "request_loop pf requestOptions body attempt lastError w =
     (if int attempt \<le> retries (self w) then
        (case try_block pf requestOptions body attempt w of
           (w1, Return v) \<Rightarrow> (w1, Inr v)
         | (w1, Continue) \<Rightarrow> request_loop pf requestOptions body (Suc attempt) lastError w1
         | (w1, Throw err) \<Rightarrow>
             (case catch_block attempt err w1 of
                (w2, Continue) \<Rightarrow> request_loop pf requestOptions body (Suc attempt) (Some err) w2
              | (w2, Throw e) \<Rightarrow> (w2, Inl e)
              | (w2, Return v) \<Rightarrow> (w2, Inr v)))
      else (w, Inl (case lastError of None \<Rightarrow> ThrownUndefined | Some e \<Rightarrow> e)))"
  by pat_completeness auto
termination
proof (relation "measure (\<lambda>(pf, ro, body, attempt, lastError, w). nat (retries (self w) + 1 - int attempt))")
  show "wf (measure (\<lambda>(pf, ro, body, attempt, lastError, w). nat (retries (self w) + 1 - int attempt)))"
    by simp
next
  fix pf ro body attempt and lastError :: "js_error option" and w w1 c
  assume le: "int attempt \<le> retries (self w)"
    and t: "(w1, c) = try_block pf ro body attempt w"
  have "self w1 = self w"
    using self_try_block [OF t [symmetric]] .
  with le
  show "((pf, ro, body, Suc attempt, lastError, w1), (pf, ro, body, attempt, lastError, w))
        \<in> measure (\<lambda>(pf, ro, body, attempt, lastError, w). nat (retries (self w) + 1 - int attempt))"
    by simp
next
  fix pf ro body attempt and lastError :: "js_error option" and w w1 c err w2 c2
  assume le: "int attempt \<le> retries (self w)"
    and t: "(w1, c) = try_block pf ro body attempt w"
    and k: "(w2, c2) = catch_block attempt err w1"
  have "self w2 = self w"
    using self_try_block [OF t [symmetric]] self_catch_block [OF k [symmetric]] by simp
  with le
  show "((pf, ro, body, Suc attempt, Some err, w2), (pf, ro, body, attempt, lastError, w))
        \<in> measure (\<lambda>(pf, ro, body, attempt, lastError, w). nat (retries (self w) + 1 - int attempt))"
    by simp
qed

declare request_loop.simps [simp del]


text \<open>\<^verbatim>\<open>request\<close>, lines 33 to 86. \<open>None\<close> as payload is the default \<^verbatim>\<open>null\<close>.\<close>

definition request ::
  "platform \<Rightarrow> string \<Rightarrow> string \<Rightarrow> json option \<Rightarrow> obj \<Rightarrow> world \<Rightarrow> world \<times> (js_error + json)" where
  "request pf method path payload options_headers w =
     (case URL_parse pf (baseURL (self w) @ path) of
        None \<Rightarrow> (w, Inl (TypeError ''Invalid URL''))
      | Some u \<Rightarrow>
          (let headers0 =
                 obj_spread [(''Authorization'', JStr (''Bearer '' @ apiKey (self w))),
                             (''Content-Type'', JStr ''application/json'')]
                            options_headers;
               body = (case payload of
                         None \<Rightarrow> None
                       | Some d \<Rightarrow>
                           if truthy d \<and> (method = ''POST'' \<or> method = ''PUT'')
                           then Some (JSON_stringify pf d) else None);
               headers1 = (case body of
                             None \<Rightarrow> headers0
                           | Some b \<Rightarrow> obj_set ''Content-Length'' (JNum (int (length b))) headers0);
               requestOptions =
                 \<lparr> ro_hostname = url_hostname u,
                   ro_port = (if url_port u \<noteq> [] then PortStr (url_port u)
                              else PortNum (if url_protocol u = ''https:'' then 443 else 80)),
                   ro_path = url_pathname u @ url_search u,
                   ro_method = method,
                   ro_headers = headers1,
                   ro_timeout = timeout (self w) \<rparr>
           in request_loop pf requestOptions body 0 None w))"

section \<open>Resource wrappers\<close>

text \<open>
  \<^verbatim>\<open>events.ingest(event)\<close>, lines 141 to 146. The argument is a reference into the
  caller's store; the assignment writes through it, and the object it then holds is the
  payload.
\<close>

definition events_ingest :: "platform \<Rightarrow> ref \<Rightarrow> world \<Rightarrow> world \<times> (js_error + json)" where
  "events_ingest pf event w =
     (let w1 = (if \<not> truthy_opt (obj_get (heap w event) ''occurred_at'')
                then w\<lparr> heap := (heap w)(event := obj_set ''occurred_at'' (JStr (Date_toISOString pf)) (heap w event)) \<rparr>
                else w)
      in request pf ''POST'' ''/api/v1/events'' (Some (JObj (heap w1 event))) [] w1)"







section \<open>A platform to evaluate on\<close>

text \<open>
  Concrete stand-ins for the platform parameters, used where a statement is evaluated at
  a concrete call. Each agrees with Node on the inputs it is given here: the serialiser on
  values whose strings need no escape, the parser on the five body texts it lists (it
  rejects the empty text and \<^verbatim>\<open>OK\<close>, as \<^verbatim>\<open>JSON.parse\<close> does), the URL parser on
  paths and queries below the production endpoint.
\<close>

fun demo_stringify :: "json \<Rightarrow> string"
  and demo_stringify_elements :: "json list \<Rightarrow> string"
  and demo_stringify_members :: "(string \<times> json) list \<Rightarrow> string" where
  "demo_stringify JNull = ''null''"
| "demo_stringify (JBool b) = (if b then ''true'' else ''false'')"
| "demo_stringify (JNum n) =
     (if n < 0 then ''-'' @ string_of_nat (nat (- n)) else string_of_nat (nat n))"
| "demo_stringify (JStr s) = [CHR 0x22] @ s @ [CHR 0x22]"
| "demo_stringify (JArr xs) = ''['' @ demo_stringify_elements xs @ '']''"
| "demo_stringify (JObj kvs) = ''{'' @ demo_stringify_members kvs @ ''}''"
| "demo_stringify_elements [] = []"
| "demo_stringify_elements [x] = demo_stringify x"
| "demo_stringify_elements (x # xs) = demo_stringify x @ '','' @ demo_stringify_elements xs"
| "demo_stringify_members [] = []"
| "demo_stringify_members [(k, v)] = [CHR 0x22] @ k @ [CHR 0x22] @ '':'' @ demo_stringify v"
| "demo_stringify_members ((k, v) # kvs) =
     [CHR 0x22] @ k @ [CHR 0x22] @ '':'' @ demo_stringify v @ '','' @ demo_stringify_members kvs"

definition demo_parse :: "string \<Rightarrow> json option" where
  \<open>demo_parse s =
     (if s = ''{}'' then Some (JObj [])
      else if s = ''null'' then Some JNull
      else if s = ''{"ok":true}'' then Some (JObj [(''ok'', JBool True)])
      else if s = ''{"message":""}'' then Some (JObj [(''message'', JStr [])])
      else if s = ''{"message":"bad key"}'' then Some (JObj [(''message'', JStr ''bad key'')])
      else None)\<close>

definition demo_URL :: "string \<Rightarrow> url option" where
  "demo_URL s =
     (if take 25 s = ''https://api.notiboost.com'' \<and> take 1 (drop 25 s) = ''/''
      then Some \<lparr> url_protocol = ''https:'',
                   url_hostname = ''api.notiboost.com'',
                   url_port = [],
                   url_pathname = takeWhile (\<lambda>c. c \<noteq> CHR ''?'') (drop 25 s),
                   url_search = dropWhile (\<lambda>c. c \<noteq> CHR ''?'') (drop 25 s) \<rparr>
      else None)"

text \<open>The platform whose network gives the \<open>n\<close>-th request of a call the answer \<open>answers n\<close>.\<close>

definition demo_platform :: "(nat \<Rightarrow> net_result) \<Rightarrow> platform" where
  "demo_platform answers =
     \<lparr> JSON_parse = demo_parse,
       JSON_stringify = demo_stringify,
       URL_parse = demo_URL,
       Date_toISOString = ''2026-01-01T00:00:00.000Z'',
       net = (\<lambda>n protocol options body. answers n) \<rparr>"

text \<open>A client as the constructor builds it from an API key and a retry count.\<close>

definition demo_options :: "int option \<Rightarrow> client_options" where
  "demo_options r =
     \<lparr> opt_apiKey = Some ''key'', opt_baseURL = None, opt_timeout = None, opt_retries = r \<rparr>"

definition demo_client :: "int \<Rightarrow> client" where
  "demo_client r =
     \<lparr> apiKey = ''key'', baseURL = ''https://api.notiboost.com'', timeout = 30000, retries = r \<rparr>"

text \<open>The options \<^verbatim>\<open>request\<close> builds for a GET of a path on that client.\<close>

definition demo_get :: "string \<Rightarrow> request_options" where
  "demo_get p =
     \<lparr> ro_hostname = ''api.notiboost.com'', ro_port = PortNum 443, ro_path = p,
       ro_method = ''GET'',
       ro_headers = [(''Authorization'', JStr ''Bearer key''), (''Content-Type'', JStr ''application/json'')],
       ro_timeout = 30000 \<rparr>"

text \<open>A world before any call: nothing on the trace, every reference holding the given object.\<close>

definition demo_world :: "client \<Rightarrow> obj \<Rightarrow> world" where
  "demo_world c ob = \<lparr> self = c, heap = (\<lambda>r. ob), trace = [] \<rparr>"

section \<open>Observations on a trace\<close>

text \<open>
  The HTTP attempts on a trace, the timer arguments and the request bodies on it, and
  what a call added to it. The last definition follows the specification, not the code:
  the trace it describes for a call whose attempts \<open>k\<close> to \<open>r\<close> all fail in the
  transport, a request and then a wait of \<open>2 ^ n\<close> seconds before the next.
\<close>

fun is_HttpRequest :: "io \<Rightarrow> bool" where
  "is_HttpRequest (HttpRequest p ro body) = True"
| "is_HttpRequest (Timer ms) = False"

definition attempts :: "io list \<Rightarrow> nat" where
  "attempts evs = length (filter is_HttpRequest evs)"


definition bodies :: "io list \<Rightarrow> string option list" where
  "bodies evs = concat (map (\<lambda>e. case e of HttpRequest p ro body \<Rightarrow> [body] | Timer ms \<Rightarrow> []) evs)"

definition issued :: "world \<Rightarrow> world \<Rightarrow> io list" where
  "issued w w' = drop (length (trace w)) (trace w')"


text \<open>
  What a call may do to the world: leave the client and the caller's objects alone, and
  add to the trace timers and requests with the one set of options and the one body.
\<close>

definition run_of :: "request_options \<Rightarrow> string option \<Rightarrow> world \<Rightarrow> world \<Rightarrow> bool" where
  "run_of ro body w w' \<longleftrightarrow>
     self w' = self w \<and> heap w' = heap w \<and>
     (\<exists>evs. trace w' = trace w @ evs \<and>
        list_all (\<lambda>e. is_HttpRequest e \<longrightarrow> e = HttpRequest (protocol_of ro) ro body) evs)"

section \<open>One pass through the loop\<close>

lemma request_loop_exit:
  "\<not> int attempt \<le> retries (self w) \<Longrightarrow>
   request_loop pf ro body attempt lastError w =
     (w, Inl (case lastError of None \<Rightarrow> ThrownUndefined | Some e \<Rightarrow> e))"
  by (subst request_loop.simps) simp

lemma request_loop_failed:
  assumes "net pf attempt (protocol_of ro) ro body = Failed msg"
    and "int attempt \<le> retries (self w)"
  shows "request_loop pf ro body attempt lastError w =
     (if int attempt < retries (self w)
      then request_loop pf ro body (Suc attempt) (Some (Error msg))
             (sleep (Some (2 ^ attempt * 1000)) (emit (HttpRequest (protocol_of ro) ro body) w))
      else (emit (HttpRequest (protocol_of ro) ro body) w, Inl (Error msg)))"
  using assms
  by (subst request_loop.simps) (simp add: try_block_def catch_block_def makeRequest_def)

lemma request_loop_2xx:
  assumes "net pf attempt (protocol_of ro) ro body = Responded code hs text"
    and "int attempt \<le> retries (self w)"
    and "200 \<le> code" and "code < 300"
  shows "request_loop pf ro body attempt lastError w =
     (emit (HttpRequest (protocol_of ro) ro body) w, Inr (parse_body pf text))"
  using assms
  by (subst request_loop.simps) (simp add: try_block_def makeRequest_def)

lemma request_loop_429_retry:
  assumes "net pf attempt (protocol_of ro) ro body = Responded 429 hs text"
    and "int attempt < retries (self w)"
  shows "request_loop pf ro body attempt lastError w =
     request_loop pf ro body (Suc attempt) lastError
       (sleep (times_1000 (parseInt (or_string (map_of hs ''retry-after'') ''1'')))
          (emit (HttpRequest (protocol_of ro) ro body) w))"
  using assms
  by (subst request_loop.simps) (simp add: try_block_def makeRequest_def)

lemma request_loop_error:
  assumes "net pf attempt (protocol_of ro) ro body = Responded code hs text"
    and "int attempt \<le> retries (self w)"
    and "\<not> (200 \<le> code \<and> code < 300)"
    and "\<not> (code = 429 \<and> int attempt < retries (self w))"
  shows "request_loop pf ro body attempt lastError w =
     (emit (HttpRequest (protocol_of ro) ro body) w,
      Inl (NotiBoostError
             (js_or (opt_chain (parse_body pf text) ''message'') (JStr (''HTTP '' @ string_of_nat code)))
             code (parse_body pf text)))"
  using assms
  by (subst request_loop.simps) (auto simp add: try_block_def catch_block_def makeRequest_def)

section \<open>The frame of a call\<close>

lemma run_of_refl: "run_of ro body w w"
  by (simp add: run_of_def)

lemma run_of_emit:
  "run_of ro body (emit (HttpRequest (protocol_of ro) ro body) w) w' \<Longrightarrow> run_of ro body w w'"
  by (auto simp: run_of_def emit_def)

lemma run_of_sleep: "run_of ro body (sleep ms w) w' \<Longrightarrow> run_of ro body w w'"
  by (auto simp: run_of_def sleep_def emit_def)

lemma request_loop_run_of:
  "run_of ro body w (fst (request_loop pf ro body attempt lastError w))"
proof (induction "nat (retries (self w) + 1 - int attempt)" arbitrary: attempt lastError w)
  case 0
  then have "\<not> int attempt \<le> retries (self w)" by simp
  then show ?case by (simp add: request_loop_exit run_of_refl)
next
  case (Suc d)
  then have le: "int attempt \<le> retries (self w)" by simp
  let ?req = "HttpRequest (protocol_of ro) ro body"
  have next_ok: "run_of ro body w (fst (request_loop pf ro body (Suc attempt) le' (sleep ms (emit ?req w))))"
    for le' ms
  proof -
    have "d = nat (retries (self (sleep ms (emit ?req w))) + 1 - int (Suc attempt))"
      using Suc.hyps(2) by simp
    from Suc.hyps(1) [OF this]
    show ?thesis by (blast intro: run_of_emit run_of_sleep)
  qed
  have stop_ok: "run_of ro body w (emit ?req w)"
    by (rule run_of_emit) (rule run_of_refl)
  show ?case
  proof (cases "net pf attempt (protocol_of ro) ro body")
    case (Failed msg)
    show ?thesis
      using request_loop_failed [OF Failed le, of lastError] next_ok stop_ok
      by (simp split: if_splits)
  next
    case (Responded code hs raw)
    show ?thesis
    proof (cases "200 \<le> code \<and> code < 300")
      case True
      then show ?thesis
        using request_loop_2xx [OF Responded le, of lastError] stop_ok by simp
    next
      case no2xx: False
      show ?thesis
      proof (cases "code = 429 \<and> int attempt < retries (self w)")
        case True
        then show ?thesis
          using request_loop_429_retry [of pf attempt ro body hs raw w lastError] Responded next_ok
          by simp
      next
        case False
        then show ?thesis
          using request_loop_error [OF Responded le no2xx False, of lastError] stop_ok by simp
      qed
    qed
  qed
qed

lemma request_run_of:
  "self (fst (request pf method path payload hs w)) = self w \<and>
   heap (fst (request pf method path payload hs w)) = heap w"
  using request_loop_run_of
  by (auto simp: request_def Let_def run_of_def split: option.splits)

section \<open>Runs of transport failures\<close>






section \<open>The number of attempts\<close>

lemma attempts_emit [simp]:
  "attempts (trace (emit e w)) = attempts (trace w) + (if is_HttpRequest e then 1 else 0)"
  by (simp add: attempts_def emit_def)

lemma attempts_sleep [simp]: "attempts (trace (sleep ms w)) = attempts (trace w)"
  by (simp add: sleep_def)

lemma request_loop_attempts_le:
  "attempts (trace (fst (request_loop pf ro body attempt lastError w)))
     \<le> attempts (trace w) + nat (retries (self w) + 1 - int attempt)"
proof (induction "nat (retries (self w) + 1 - int attempt)" arbitrary: attempt lastError w)
  case 0
  then have "\<not> int attempt \<le> retries (self w)" by simp
  then show ?case by (simp add: request_loop_exit)
next
  case (Suc d)
  then have le: "int attempt \<le> retries (self w)" by simp
  let ?req = "HttpRequest (protocol_of ro) ro body"
  have next_ok: "attempts (trace (fst (request_loop pf ro body (Suc attempt) le' (sleep ms (emit ?req w)))))
                   \<le> attempts (trace w) + nat (retries (self w) + 1 - int attempt)"
    for le' ms
  proof -
    have "d = nat (retries (self (sleep ms (emit ?req w))) + 1 - int (Suc attempt))"
      using Suc.hyps(2) by simp
    from Suc.hyps(1) [OF this, of le'] le
    show ?thesis by simp
  qed
  have stop_ok: "attempts (trace (emit ?req w)) \<le> attempts (trace w) + nat (retries (self w) + 1 - int attempt)"
    using le by simp
  show ?case
  proof (cases "net pf attempt (protocol_of ro) ro body")
    case (Failed msg)
    show ?thesis
      using request_loop_failed [OF Failed le, of lastError] next_ok stop_ok
      by (simp split: if_splits)
  next
    case (Responded code hs raw)
    show ?thesis
    proof (cases "200 \<le> code \<and> code < 300")
      case True
      then show ?thesis
        using request_loop_2xx [OF Responded le, of lastError] stop_ok by simp
    next
      case no2xx: False
      show ?thesis
      proof (cases "code = 429 \<and> int attempt < retries (self w)")
        case True
        then show ?thesis
          using request_loop_429_retry [of pf attempt ro body hs raw w lastError] Responded next_ok
          by simp
      next
        case False
        then show ?thesis
          using request_loop_error [OF Responded le no2xx False, of lastError] stop_ok by simp
      qed
    qed
  qed
qed

lemma request_attempts_le:
  "attempts (trace (fst (request pf method path payload hs w)))
     \<le> attempts (trace w) + nat (retries (self w) + 1)"
  using request_loop_attempts_le [where attempt = 0 and w = w]
  by (auto simp: request_def Let_def split: option.splits)

text \<open>
  Claim C1. The loop never makes more than \<open>1 + retries\<close> attempts
  (\<open>request_attempts_le\<close>), but the constructor reads a retry count of 0 as absent and
  stores the default 3: on a client constructed with \<^verbatim>\<open>retries: 0\<close>, a call whose
  transport always fails makes four attempts.
\<close>

theorem retries_zero_attempts:
  "new_NotiBoostClient (demo_options (Some 0)) = Inr (demo_client 3) \<and>
   attempts (trace (fst (request (demo_platform (\<lambda>n. Failed ''ECONNRESET'')) ''GET'' ''/api/v1/flows'' None []
                          (demo_world (demo_client 3) [])))) = 4"
proof
  show "new_NotiBoostClient (demo_options (Some 0)) = Inr (demo_client 3)"
    by (simp add: new_NotiBoostClient_def demo_options_def demo_client_def)
  show "attempts (trace (fst (request (demo_platform (\<lambda>n. Failed ''ECONNRESET'')) ''GET'' ''/api/v1/flows'' None []
                          (demo_world (demo_client 3) [])))) = 4"
    by code_simp
qed

section \<open>The configuration is not written\<close>

text \<open>
  Claim C9. Whatever the method, path, payload, header overrides and outcome, the client's
  credential, base URL, timeout and retry count after \<^verbatim>\<open>request\<close> are what they were
  before it.
\<close>

theorem request_keeps_configuration:
  "apiKey (self (fst (request pf method path payload options_headers w))) = apiKey (self w) \<and>
   baseURL (self (fst (request pf method path payload options_headers w))) = baseURL (self w) \<and>
   timeout (self (fst (request pf method path payload options_headers w))) = timeout (self w) \<and>
   retries (self (fst (request pf method path payload options_headers w))) = retries (self w)"
  by (simp add: request_run_of)


section \<open>Calls on the evaluation platform\<close>

lemma demo_get_protocol [simp]: "protocol_of (demo_get p) = HTTPS"
  by (simp add: protocol_of_def demo_get_def)


section \<open>Rate limiting\<close>

lemma issued_emit_self [simp]: "issued w (emit e w) = [e]"
  by (simp add: issued_def emit_def)



text \<open>On a header made of decimal digits \<^verbatim>\<open>parseInt\<close> reads the number they write.\<close>

lemma isDigit_not_space_or_sign:
  "isDigit c \<Longrightarrow> \<not> isWhiteSpace c \<and> c \<noteq> CHR ''-'' \<and> c \<noteq> CHR ''+''"
  by (auto simp: isDigit_def isWhiteSpace_def)

lemma parseInt_digits:
  assumes "ds \<noteq> []" and "list_all isDigit ds"
  shows "parseInt ds = Some (int (digits_val ds))"
proof -
  from assms obtain c r where ds: "ds = c # r" by (cases ds) auto
  with assms(2) have c: "isDigit c" and r: "list_all isDigit r" by simp_all
  note n = isDigit_not_space_or_sign [OF c]
  have t: "takeWhile isDigit r = r"
    using r by (simp add: takeWhile_eq_all_conv list_all_iff)
  show ?thesis
    using c n by (simp add: parseInt_def ds t)
qed




section \<open>API errors\<close>

text \<open>
  A call starts the loop at attempt 0 once the URL parses; so against a handler that
  always answers 500, a client whose retry count is not negative makes one attempt.
\<close>

lemma request_unfold:
  assumes "URL_parse pf (baseURL (self w) @ path) = Some u"
  shows "\<exists>ro body. request pf method path payload hs w = request_loop pf ro body 0 None w"
  by (simp only: request_def Let_def assms option.case) blast

lemma always_500_one_attempt:
  assumes "\<forall>n p ro body. net pf n p ro body = Responded 500 hs raw"
    and "URL_parse pf (baseURL (self w) @ path) = Some u"
    and "0 \<le> retries (self w)"
  shows "attempts (issued w (fst (request pf method path payload ohs w))) = 1 \<and>
         (\<exists>m. snd (request pf method path payload ohs w) = Inl (NotiBoostError m 500 (parse_body pf raw)))"
proof -
  obtain ro body where eq: "request pf method path payload ohs w = request_loop pf ro body 0 None w"
    using request_unfold [OF assms(2)] by blast
  have n: "net pf 0 (protocol_of ro) ro body = Responded 500 hs raw"
    using assms(1) by simp
  have "request_loop pf ro body 0 None w =
     (emit (HttpRequest (protocol_of ro) ro body) w,
      Inl (NotiBoostError
             (js_or (opt_chain (parse_body pf raw) ''message'') (JStr (''HTTP '' @ string_of_nat 500)))
             500 (parse_body pf raw)))"
    using request_loop_error [OF n, of w None] assms(3) by simp
  with eq show ?thesis
    by (simp add: attempts_def)
qed



section \<open>Successful responses\<close>




section \<open>Request headers\<close>

lemma obj_get_set: "obj_get (obj_set k v kvs) k' = (if k' = k then Some v else obj_get kvs k')"
  by (simp add: obj_get_def obj_set_def update_conv)

lemma obj_spread_snoc: "obj_spread base (hs @ [(k, v)]) = obj_set k v (obj_spread base hs)"
  by (simp add: obj_spread_def)

lemma obj_get_spread_other:
  "k \<notin> fst ` set hs \<Longrightarrow> obj_get (obj_spread base hs) k = obj_get base k"
proof (induction hs rule: rev_induct)
  case Nil
  show ?case by (simp add: obj_spread_def)
next
  case (snoc x xs)
  obtain k' v' where x: "x = (k', v')" by (cases x)
  from snoc.prems x have "k \<noteq> k'" "k \<notin> fst ` set xs" by auto
  with snoc.IH x show ?case by (simp add: obj_spread_snoc obj_get_set)
qed

lemma obj_get_spread_override:
  "distinct (map fst hs) \<Longrightarrow> (k, v) \<in> set hs \<Longrightarrow> obj_get (obj_spread base hs) k = Some v"
proof (induction hs rule: rev_induct)
  case Nil
  then show ?case by simp
next
  case (snoc x xs)
  obtain k' v' where x: "x = (k', v')" by (cases x)
  from snoc.prems(1) x have d: "distinct (map fst xs)" "k' \<notin> fst ` set xs" by auto
  show ?case
  proof (cases "(k, v) \<in> set xs")
    case True
    then have "k \<noteq> k'" using d(2) by force
    with snoc.IH [OF d(1) True] x show ?thesis by (simp add: obj_spread_snoc obj_get_set)
  next
    case False
    with snoc.prems(2) x have "k = k'" "v = v'" by auto
    with x show ?thesis by (simp add: obj_spread_snoc obj_get_set)
  qed
qed

lemma run_of_issued:
  "run_of ro body w w' \<Longrightarrow> HttpRequest p ro' b \<in> set (issued w w') \<Longrightarrow>
   p = protocol_of ro \<and> ro' = ro \<and> b = body"
proof -
  assume r: "run_of ro body w w'" and m: "HttpRequest p ro' b \<in> set (issued w w')"
  from r obtain evs where evs: "trace w' = trace w @ evs"
    "list_all (\<lambda>e. is_HttpRequest e \<longrightarrow> e = HttpRequest (protocol_of ro) ro body) evs"
    by (auto simp: run_of_def)
  from evs(1) m have "HttpRequest p ro' b \<in> set evs" by (simp add: issued_def)
  with evs(2) have "HttpRequest p ro' b = HttpRequest (protocol_of ro) ro body"
    by (force simp: list_all_iff)
  then show ?thesis by simp
qed

lemma issued_refl [simp]: "issued w w = []"
  by (simp add: issued_def)

lemma request_issued:
  assumes "HttpRequest p ro b \<in> set (issued w (fst (request pf method path payload hs w)))"
  shows "ro_method ro = method \<and>
         b = (case payload of
                None \<Rightarrow> None
              | Some d \<Rightarrow> if truthy d \<and> (method = ''POST'' \<or> method = ''PUT'')
                          then Some (JSON_stringify pf d) else None) \<and>
         ro_headers ro =
           (case b of
              None \<Rightarrow>
                obj_spread [(''Authorization'', JStr (''Bearer '' @ apiKey (self w))),
                            (''Content-Type'', JStr ''application/json'')] hs
            | Some x \<Rightarrow>
                obj_set ''Content-Length'' (JNum (int (length x)))
                  (obj_spread [(''Authorization'', JStr (''Bearer '' @ apiKey (self w))),
                               (''Content-Type'', JStr ''application/json'')] hs))"
proof (cases "URL_parse pf (baseURL (self w) @ path)")
  case None
  with assms show ?thesis by (simp add: request_def)
next
  case (Some u)
  let ?body = "case payload of
                 None \<Rightarrow> None
               | Some d \<Rightarrow> if truthy d \<and> (method = ''POST'' \<or> method = ''PUT'')
                           then Some (JSON_stringify pf d) else None"
  let ?h0 = "obj_spread [(''Authorization'', JStr (''Bearer '' @ apiKey (self w))),
                         (''Content-Type'', JStr ''application/json'')] hs"
  let ?ro = "\<lparr> ro_hostname = url_hostname u,
               ro_port = (if url_port u \<noteq> [] then PortStr (url_port u)
                          else PortNum (if url_protocol u = ''https:'' then 443 else 80)),
               ro_path = url_pathname u @ url_search u,
               ro_method = method,
               ro_headers = (case ?body of None \<Rightarrow> ?h0
                             | Some x \<Rightarrow> obj_set ''Content-Length'' (JNum (int (length x))) ?h0),
               ro_timeout = timeout (self w) \<rparr>"
  have eq: "request pf method path payload hs w = request_loop pf ?ro ?body 0 None w"
    by (simp only: request_def Let_def Some option.case)
  from run_of_issued [OF request_loop_run_of [where ro = ?ro and body = ?body and pf = pf
        and attempt = 0 and lastError = None and w = w], of p ro b] assms eq
  have "ro = ?ro" "b = ?body" by simp_all
  then show ?thesis by simp
qed

text \<open>
  Claim C6, amended. Every request a call issues carries an \<^verbatim>\<open>Authorization\<close> header,
  the bearer header of the configured credential unless the caller overrides that name,
  and a \<^verbatim>\<open>Content-Type\<close> header, \<^verbatim>\<open>application/json\<close> unless overridden. A header
  the caller supplies is sent with the caller's value, except \<^verbatim>\<open>Content-Length\<close> on a
  request with a body: that one is set afterwards to the byte length of the body.
\<close>

theorem dispatched_headers:
  assumes "HttpRequest p ro b \<in> set (issued w (fst (request pf method path payload hs w)))"
    and "distinct (map fst hs)"
  shows "(''Authorization'' \<notin> fst ` set hs \<longrightarrow>
            obj_get (ro_headers ro) ''Authorization'' = Some (JStr (''Bearer '' @ apiKey (self w)))) \<and>
         (''Content-Type'' \<notin> fst ` set hs \<longrightarrow>
            obj_get (ro_headers ro) ''Content-Type'' = Some (JStr ''application/json'')) \<and>
         (\<forall>(k, v) \<in> set hs. k \<noteq> ''Content-Length'' \<or> b = None \<longrightarrow>
            obj_get (ro_headers ro) k = Some v) \<and>
         (\<forall>x. b = Some x \<longrightarrow>
            obj_get (ro_headers ro) ''Content-Length'' = Some (JNum (int (length x))))"
proof -
  let ?base = "[(''Authorization'', JStr (''Bearer '' @ apiKey (self w))),
                (''Content-Type'', JStr ''application/json'')]"
  note r = request_issued [OF assms(1)]
  have base: "obj_get ?base ''Authorization'' = Some (JStr (''Bearer '' @ apiKey (self w)))"
    "obj_get ?base ''Content-Type'' = Some (JStr ''application/json'')"
    by (simp_all add: obj_get_def)
  have a: "''Authorization'' \<notin> fst ` set hs \<Longrightarrow>
             obj_get (ro_headers ro) ''Authorization'' = Some (JStr (''Bearer '' @ apiKey (self w)))"
    using r base(1) by (cases b) (simp_all add: obj_get_set obj_get_spread_other)
  have c: "''Content-Type'' \<notin> fst ` set hs \<Longrightarrow>
             obj_get (ro_headers ro) ''Content-Type'' = Some (JStr ''application/json'')"
    using r base(2) by (cases b) (simp_all add: obj_get_set obj_get_spread_other)
  have o: "obj_get (ro_headers ro) k = Some v"
    if "(k, v) \<in> set hs" "k \<noteq> ''Content-Length'' \<or> b = None" for k v
    using r that obj_get_spread_override [OF assms(2) that(1), of ?base]
    by (cases b) (auto simp: obj_get_set)
  have l: "obj_get (ro_headers ro) ''Content-Length'' = Some (JNum (int (length x)))" if "b = Some x" for x
    using r that by (simp add: obj_get_set)
  from a c o l show ?thesis by blast
qed

theorem dispatched_headers_witness:
  "HttpRequest HTTPS
     ((demo_get ''/x'')\<lparr> ro_headers :=
        [(''Authorization'', JStr ''Bearer key''), (''Content-Type'', JStr ''text/plain''),
         (''Idempotency-Key'', JStr ''unique-key-12345'')] \<rparr>) None
     \<in> set (issued (demo_world (demo_client 3) [])
               (fst (request (demo_platform (\<lambda>n. Responded 200 [] ''{}'')) ''GET'' ''/x'' None
                       [(''Idempotency-Key'', JStr ''unique-key-12345''), (''Content-Type'', JStr ''text/plain'')]
                       (demo_world (demo_client 3) [])))) \<and>
   distinct (map fst [(''Idempotency-Key'', JStr ''unique-key-12345''), (''Content-Type'', JStr ''text/plain'')]) \<and>
   obj_get (ro_headers ((demo_get ''/x'')\<lparr> ro_headers :=
        [(''Authorization'', JStr ''Bearer key''), (''Content-Type'', JStr ''text/plain''),
         (''Idempotency-Key'', JStr ''unique-key-12345'')] \<rparr>)) ''Authorization''
     = Some (JStr (''Bearer '' @ apiKey (self (demo_world (demo_client 3) []))))"
proof -
  let ?hs = "[(''Idempotency-Key'', JStr ''unique-key-12345''), (''Content-Type'', JStr ''text/plain'')]"
  let ?ro = "(demo_get ''/x'')\<lparr> ro_headers :=
        [(''Authorization'', JStr ''Bearer key''), (''Content-Type'', JStr ''text/plain''),
         (''Idempotency-Key'', JStr ''unique-key-12345'')] \<rparr>"
  let ?w = "demo_world (demo_client 3) []"
  have h1: "HttpRequest HTTPS ?ro None
     \<in> set (issued ?w (fst (request (demo_platform (\<lambda>n. Responded 200 [] ''{}'')) ''GET'' ''/x'' None ?hs ?w)))"
    by code_simp
  have h2: "distinct (map fst ?hs)" by simp
  have n: "''Authorization'' \<notin> fst ` set ?hs" by simp
  from dispatched_headers [OF h1 h2] n
  have "obj_get (ro_headers ?ro) ''Authorization'' = Some (JStr (''Bearer '' @ apiKey (self ?w)))"
    by blast
  with h1 h2 show ?thesis by blast
qed

theorem content_length_override_counterexample:
  \<open>issued (demo_world (demo_client 3) [])
     (fst (request (demo_platform (\<lambda>n. Responded 200 [] ''{}'')) ''POST'' ''/api/v1/flows''
             (Some (JObj [(''name'', JStr ''f'')])) [(''Content-Length'', JStr ''5'')]
             (demo_world (demo_client 3) []))) =
   [HttpRequest HTTPS
      \<lparr> ro_hostname = ''api.notiboost.com'', ro_port = PortNum 443, ro_path = ''/api/v1/flows'',
        ro_method = ''POST'',
        ro_headers = [(''Authorization'', JStr ''Bearer key''), (''Content-Type'', JStr ''application/json''),
                      (''Content-Length'', JNum 12)],
        ro_timeout = 30000 \<rparr>
      (Some ''{"name":"f"}'')] \<and>
   JNum 12 \<noteq> JStr ''5''\<close>
  by code_simp

section \<open>Listing templates\<close>



section \<open>Ingesting an event\<close>

lemma issued_heap_update [simp]: "issued (w\<lparr> heap := h \<rparr>) w' = issued w w'"
  by (simp add: issued_def)

text \<open>
  Claim C7, amended. \<^verbatim>\<open>events.ingest\<close> posts one payload to the events path, and
  every request of the call carries its serialisation. When the event's
  \<^verbatim>\<open>occurred_at\<close> is present and truthy the payload is the event as given. When it is
  absent or falsy (null, the empty string, 0, false) the payload's \<^verbatim>\<open>occurred_at\<close> is
  the clock's ISO timestamp at the call and every other field is the event's.
\<close>

theorem ingest_payload:
  "\<exists>ev. events_ingest pf event w =
          request pf ''POST'' ''/api/v1/events'' (Some (JObj ev)) [] (w\<lparr> heap := (heap w)(event := ev) \<rparr>) \<and>
        (if truthy_opt (obj_get (heap w event) ''occurred_at'') then ev = heap w event
         else obj_get ev ''occurred_at'' = Some (JStr (Date_toISOString pf)) \<and>
              (\<forall>k. k \<noteq> ''occurred_at'' \<longrightarrow> obj_get ev k = obj_get (heap w event) k)) \<and>
        (\<forall>p ro b. HttpRequest p ro b \<in> set (issued w (fst (events_ingest pf event w))) \<longrightarrow>
           ro_method ro = ''POST'' \<and> b = Some (JSON_stringify pf (JObj ev)))"
proof -
  let ?now = "JStr (Date_toISOString pf)"
  let ?ev = "if truthy_opt (obj_get (heap w event) ''occurred_at'') then heap w event
             else obj_set ''occurred_at'' ?now (heap w event)"
  let ?w1 = "w\<lparr> heap := (heap w)(event := ?ev) \<rparr>"
  have same: "w\<lparr> heap := (heap w)(event := heap w event) \<rparr> = w"
    by simp
  have eq: "events_ingest pf event w = request pf ''POST'' ''/api/v1/events'' (Some (JObj ?ev)) [] ?w1"
    by (simp add: events_ingest_def Let_def same)
  have wire: "ro_method ro = ''POST'' \<and> b = Some (JSON_stringify pf (JObj ?ev))"
    if "HttpRequest p ro b \<in> set (issued w (fst (events_ingest pf event w)))" for p ro b
  proof -
    from that eq
    have "HttpRequest p ro b \<in> set (issued ?w1 (fst (request pf ''POST'' ''/api/v1/events'' (Some (JObj ?ev)) [] ?w1)))"
      by simp
    from request_issued [OF this] show ?thesis by simp
  qed
  have fields: "if truthy_opt (obj_get (heap w event) ''occurred_at'') then ?ev = heap w event
         else obj_get ?ev ''occurred_at'' = Some ?now \<and>
              (\<forall>k. k \<noteq> ''occurred_at'' \<longrightarrow> obj_get ?ev k = obj_get (heap w event) k)"
    by (simp add: obj_get_set)
  from eq fields wire show ?thesis by blast
qed

theorem ingest_payload_witness:
  "\<exists>ev. events_ingest (demo_platform (\<lambda>n. Responded 200 [] ''{}'')) 0
           (demo_world (demo_client 3)
              [(''event_name'', JStr ''x''), (''event_id'', JStr ''e1''), (''user_id'', JStr ''u1'')]) =
         request (demo_platform (\<lambda>n. Responded 200 [] ''{}'')) ''POST'' ''/api/v1/events'' (Some (JObj ev)) []
           ((demo_world (demo_client 3)
              [(''event_name'', JStr ''x''), (''event_id'', JStr ''e1''), (''user_id'', JStr ''u1'')])
            \<lparr> heap := (heap (demo_world (demo_client 3)
              [(''event_name'', JStr ''x''), (''event_id'', JStr ''e1''), (''user_id'', JStr ''u1'')]))(0 := ev) \<rparr>) \<and>
        obj_get ev ''occurred_at'' = Some (JStr ''2026-01-01T00:00:00.000Z'') \<and>
        obj_get ev ''event_name'' = Some (JStr ''x'') \<and>
        obj_get ev ''event_id'' = Some (JStr ''e1'') \<and>
        obj_get ev ''user_id'' = Some (JStr ''u1'')"
proof -
  let ?pf = "demo_platform (\<lambda>n. Responded 200 [] ''{}'')"
  let ?w = "demo_world (demo_client 3)
              [(''event_name'', JStr ''x''), (''event_id'', JStr ''e1''), (''user_id'', JStr ''u1'')]"
  have f: "\<not> truthy_opt (obj_get (heap ?w 0) ''occurred_at'')"
    by (simp add: demo_world_def obj_get_def)
  from ingest_payload [of ?pf 0 ?w] f
  obtain ev where ev:
    "events_ingest ?pf 0 ?w = request ?pf ''POST'' ''/api/v1/events'' (Some (JObj ev)) [] (?w\<lparr> heap := (heap ?w)(0 := ev) \<rparr>)"
    "obj_get ev ''occurred_at'' = Some (JStr (Date_toISOString ?pf))"
    "\<forall>k. k \<noteq> ''occurred_at'' \<longrightarrow> obj_get ev k = obj_get (heap ?w 0) k"
    by auto
  have n: "Date_toISOString ?pf = ''2026-01-01T00:00:00.000Z''"
    by (simp add: demo_platform_def)
  have "obj_get ev ''event_name'' = Some (JStr ''x'')" "obj_get ev ''event_id'' = Some (JStr ''e1'')"
    "obj_get ev ''user_id'' = Some (JStr ''u1'')"
    using ev(3) by (simp_all add: demo_world_def obj_get_def)
  with ev(1,2) n show ?thesis by auto
qed

theorem ingest_null_payload_counterexample:
  \<open>obj_get (heap (demo_world (demo_client 3) [(''event_name'', JStr ''x''), (''occurred_at'', JNull)]) 0)
      ''occurred_at'' = Some JNull \<and>
   JSON_stringify (demo_platform (\<lambda>n. Responded 200 [] ''{}''))
      (JObj (heap (demo_world (demo_client 3) [(''event_name'', JStr ''x''), (''occurred_at'', JNull)]) 0))
     = ''{"event_name":"x","occurred_at":null}'' \<and>
   bodies (issued (demo_world (demo_client 3) [(''event_name'', JStr ''x''), (''occurred_at'', JNull)])
             (fst (events_ingest (demo_platform (\<lambda>n. Responded 200 [] ''{}'')) 0
                     (demo_world (demo_client 3) [(''event_name'', JStr ''x''), (''occurred_at'', JNull)]))))
     = [Some ''{"event_name":"x","occurred_at":"2026-01-01T00:00:00.000Z"}'']\<close>
  by code_simp

text \<open>
  Claim C10, amended. \<^verbatim>\<open>events.ingest\<close> writes into the object it is given: when the
  event's \<^verbatim>\<open>occurred_at\<close> is absent or falsy, the caller's object holds the generated
  timestamp in \<^verbatim>\<open>occurred_at\<close> after the call, and the payload is that object, not a
  copy. An object whose \<^verbatim>\<open>occurred_at\<close> is truthy is not modified, and no other object
  of the caller ever is.
\<close>

theorem ingest_writes_argument:
  "heap (fst (events_ingest pf event w)) =
     (if truthy_opt (obj_get (heap w event) ''occurred_at'') then heap w
      else (heap w)(event := obj_set ''occurred_at'' (JStr (Date_toISOString pf)) (heap w event))) \<and>
   (\<not> truthy_opt (obj_get (heap w event) ''occurred_at'') \<longrightarrow>
      obj_get (heap (fst (events_ingest pf event w)) event) ''occurred_at''
        = Some (JStr (Date_toISOString pf))) \<and>
   (\<exists>w1. events_ingest pf event w =
      request pf ''POST'' ''/api/v1/events''
        (Some (JObj (heap (fst (events_ingest pf event w)) event))) [] w1)"
proof -
  let ?h = "if truthy_opt (obj_get (heap w event) ''occurred_at'') then heap w
            else (heap w)(event := obj_set ''occurred_at'' (JStr (Date_toISOString pf)) (heap w event))"
  have h: "heap (fst (events_ingest pf event w)) = ?h"
    by (simp add: events_ingest_def Let_def request_run_of)
  have g: "\<not> truthy_opt (obj_get (heap w event) ''occurred_at'') \<Longrightarrow>
           obj_get (?h event) ''occurred_at'' = Some (JStr (Date_toISOString pf))"
    by (simp add: obj_get_set)
  have e: "\<exists>w1. events_ingest pf event w =
      request pf ''POST'' ''/api/v1/events'' (Some (JObj (?h event))) [] w1"
    by (auto simp: events_ingest_def Let_def)
  from h g e show ?thesis by simp
qed

theorem ingest_writes_argument_witness:
  "\<not> truthy_opt (obj_get (heap (demo_world (demo_client 3) [(''event_name'', JStr ''x'')]) 0) ''occurred_at'') \<and>
   obj_get (heap (fst (events_ingest (demo_platform (\<lambda>n. Responded 200 [] ''{}'')) 0
                         (demo_world (demo_client 3) [(''event_name'', JStr ''x'')]))) 0) ''occurred_at''
     = Some (JStr ''2026-01-01T00:00:00.000Z'') \<and>
   heap (fst (events_ingest (demo_platform (\<lambda>n. Responded 200 [] ''{}'')) 0
                (demo_world (demo_client 3) [(''occurred_at'', JStr ''2025-12-01T10:00:00Z'')])))
     = heap (demo_world (demo_client 3) [(''occurred_at'', JStr ''2025-12-01T10:00:00Z'')])"
proof -
  let ?pf = "demo_platform (\<lambda>n. Responded 200 [] ''{}'')"
  let ?w = "demo_world (demo_client 3) [(''event_name'', JStr ''x'')]"
  let ?v = "demo_world (demo_client 3) [(''occurred_at'', JStr ''2025-12-01T10:00:00Z'')]"
  have f: "\<not> truthy_opt (obj_get (heap ?w 0) ''occurred_at'')"
    by (simp add: demo_world_def obj_get_def)
  have t: "truthy_opt (obj_get (heap ?v 0) ''occurred_at'')"
    by (simp add: demo_world_def obj_get_def)
  have n: "Date_toISOString ?pf = ''2026-01-01T00:00:00.000Z''"
    by (simp add: demo_platform_def)
  from ingest_writes_argument [of ?pf 0 ?w, THEN conjunct2, THEN conjunct1] f n
  have a: "obj_get (heap (fst (events_ingest ?pf 0 ?w)) 0) ''occurred_at'' = Some (JStr ''2026-01-01T00:00:00.000Z'')"
    by simp
  from ingest_writes_argument [of ?pf 0 ?v, THEN conjunct1] t
  have b: "heap (fst (events_ingest ?pf 0 ?v)) = heap ?v"
    by simp
  from f a b show ?thesis by blast
qed

theorem ingest_empty_timestamp_counterexample:
  "obj_get (heap (demo_world (demo_client 3) [(''event_id'', JStr ''e1''), (''occurred_at'', JStr [])]) 0)
      ''occurred_at'' = Some (JStr []) \<and>
   heap (fst (events_ingest (demo_platform (\<lambda>n. Responded 200 [] ''{}'')) 0
                (demo_world (demo_client 3) [(''event_id'', JStr ''e1''), (''occurred_at'', JStr [])]))) 0
     = [(''event_id'', JStr ''e1''), (''occurred_at'', JStr ''2026-01-01T00:00:00.000Z'')] \<and>
   heap (fst (events_ingest (demo_platform (\<lambda>n. Responded 200 [] ''{}'')) 0
                (demo_world (demo_client 3) [(''event_id'', JStr ''e1''), (''occurred_at'', JStr [])]))) 0
     \<noteq> heap (demo_world (demo_client 3) [(''event_id'', JStr ''e1''), (''occurred_at'', JStr [])]) 0"
  by code_simp

end
